theory Spec2Isabelle
  imports Main "HOL-Library.Char_ord" "HOL-Library.List_Lexorder" "HOL-Library.Multiset"
begin

section \<open>kube-scan: cluster image inventory, per-image scan, severity report\<close>

text \<open>
  A shallow embedding of \<^verbatim>\<open>src/kube-scan.py\<close>. The script collects the image references
  of a cluster with \<^verbatim>\<open>kubectl\<close>, runs \<^verbatim>\<open>grype\<close> once per image, counts the findings
  by severity, prints a cumulative table and writes a per-image CSV file.

  Conventions of the model.
  \<^item> A Python \<^verbatim>\<open>str\<close> is a \<^typ>\<open>string\<close> holding the UTF-8 bytes of the text: an ASCII
    character is one \<^typ>\<open>char\<close>, any other code point is its two to four bytes. Byte-wise
    lexicographic order of UTF-8 text is the code-point order Python compares strings by.
  \<^item> A Python \<^verbatim>\<open>int\<close> is an \<^typ>\<open>int\<close>.
  \<^item> The external world is a record \<open>env\<close>: what \<^verbatim>\<open>kubectl\<close> and \<^verbatim>\<open>grype\<close> do when
    spawned, what \<^verbatim>\<open>json.loads\<close> makes of a text, and whether the CSV file can be written.
  \<^item> Every function that prints or raises returns the list of events it emitted together
    with either the raised exception (\<open>Inl\<close>) or its value (\<open>Inr\<close>).
  \<^item> Printing succeeds: \<^verbatim>\<open>print\<close> raises nothing.
  \<^item> The import of \<^verbatim>\<open>tabulate\<close> at the head of the script, and the rendering of the grid
    by that library, are outside the model: the table is an event holding its headers
    and rows.
\<close>

subsection \<open>Strings\<close>

definition ascii_upper :: "char \<Rightarrow> char" where
  "ascii_upper c =
     (let n = of_char c :: nat in if 97 \<le> n \<and> n \<le> 122 then char_of (n - 32) else c)"

definition ascii_lower :: "char \<Rightarrow> char" where
  "ascii_lower c =
     (let n = of_char c :: nat in if 65 \<le> n \<and> n \<le> 90 then char_of (n + 32) else c)"

text \<open>
  \<^verbatim>\<open>str.capitalize()\<close>: the first character upper-cased, every other one lower-cased.
  Characters outside ASCII are left as they are; no such character is mapped by Python
  onto a letter of the four severity labels, so the membership test of \<open>summarize\<close>
  is not affected.
\<close>

fun capitalize :: "string \<Rightarrow> string" where
  "capitalize [] = []"
| "capitalize (c # cs) = ascii_upper c # map ascii_lower cs"

text \<open>
  The line boundaries of \<^verbatim>\<open>str.splitlines()\<close>: CR LF, then LF, VT, FF, CR, FS, GS, RS, and
  the code points U+0085, U+2028 and U+2029, which are the bytes C2 85, E2 80 A8 and
  E2 80 A9. \<open>boundary s\<close> is the number of bytes of the boundary \<open>s\<close> begins with, and 0
  when it begins with none.
\<close>

definition boundary :: "string \<Rightarrow> nat" where
  "boundary s =
     (let b = map of_char (take 3 s) :: nat list in
      if take 2 b = [13, 10] \<or> take 2 b = [194, 133] then 2
      else if b = [226, 128, 168] \<or> b = [226, 128, 169] then 3
      else if take 1 b \<in> set [[10], [11], [12], [13], [28], [29], [30]] then 1
      else 0)"

text \<open>
  \<^verbatim>\<open>str.splitlines()\<close>: the boundary is not part of a line and a final boundary opens no
  further line. The first argument collects the current line in reverse.
\<close>

function splitlines_from :: "string \<Rightarrow> string \<Rightarrow> string list" where
  "splitlines_from acc s =
     (if s = [] then (if acc = [] then [] else [rev acc])
      else if boundary s = 0 then splitlines_from (hd s # acc) (tl s)
      else rev acc # splitlines_from [] (drop (boundary s) s))"
  by pat_completeness auto
termination
  by (relation "measure (\<lambda>(acc, s). length s)") auto

declare splitlines_from.simps [simp del]

definition splitlines :: "string \<Rightarrow> string list" where
  "splitlines s = splitlines_from [] s"

text \<open>\<^verbatim>\<open>str(n)\<close> for an integer: decimal digits, with a minus sign below zero.\<close>

fun str_nat :: "nat \<Rightarrow> string" where
  "str_nat n =
     (if n < 10 then [''0123456789'' ! n]
      else str_nat (n div 10) @ [''0123456789'' ! (n mod 10)])"

definition str_int :: "int \<Rightarrow> string" where
  "str_int i = (if i < 0 then CHR ''-'' # str_nat (nat (- i)) else str_nat (nat i))"

subsection \<open>JSON values, exceptions, events, the environment\<close>

text \<open>
  What \<^verbatim>\<open>json.loads\<close> returns. A \<^verbatim>\<open>dict\<close> is an association list read with
  \<^const>\<open>map_of\<close>: the first binding of a key is the dictionary's value for it.
\<close>

datatype json =
    JNull
  | JBool bool
  | JInt int
  | JFloat int int
  | JStr string
  | JArr "json list"
  | JObj "(string \<times> json) list"

text \<open>\<^verbatim>\<open>d.get(key, default)\<close> on a \<^verbatim>\<open>dict\<close>.\<close>

definition dict_get :: "(string \<times> json) list \<Rightarrow> string \<Rightarrow> json \<Rightarrow> json" where
  "dict_get d k dflt = (case map_of d k of None \<Rightarrow> dflt | Some v \<Rightarrow> v)"

datatype exn =
    CalledProcessError  \<comment> \<open>\<^verbatim>\<open>check=True\<close> and a non-zero return code\<close>
  | OSError             \<comment> \<open>the process could not be spawned, or the file not opened or written\<close>
  | UnicodeDecodeError  \<comment> \<open>the captured output is not text in the expected encoding\<close>
  | JSONDecodeError     \<comment> \<open>\<^verbatim>\<open>json.loads\<close> on a text that is not JSON\<close>
  | AttributeError      \<comment> \<open>a method looked up on a value that has none of that name\<close>
  | TypeError           \<comment> \<open>\<^verbatim>\<open>for\<close> over a value that is not iterable\<close>
  | SystemExit int      \<comment> \<open>\<^verbatim>\<open>sys.exit(n)\<close>\<close>

datatype event =
    Stdout string                         \<comment> \<open>\<^verbatim>\<open>print(s)\<close>\<close>
  | Stderr string                         \<comment> \<open>\<^verbatim>\<open>print(s, file=sys.stderr)\<close>\<close>
  | StdoutTable "string list" "int list list"
      \<comment> \<open>\<^verbatim>\<open>print(tabulate(rows, headers=..., tablefmt="grid"))\<close>\<close>
  | FileWritten string string             \<comment> \<open>file name and the text that reached the file\<close>

text \<open>
  The outcome of \<^verbatim>\<open>subprocess.run(cmd, capture_output=True, text=True)\<close>. The captured
  output is decoded before \<^verbatim>\<open>check=True\<close> looks at the return code.
\<close>

datatype proc =
    SpawnError                \<comment> \<open>the executable is missing or cannot be started\<close>
  | Undecodable               \<comment> \<open>the process ran; its output cannot be decoded as text\<close>
  | Exited int string         \<comment> \<open>return code and captured standard output\<close>

datatype fs_outcome =
    FsOk
  | FsOpenError               \<comment> \<open>\<^verbatim>\<open>open(csv_file, "w")\<close> raises\<close>
  | FsWriteError nat          \<comment> \<open>the file is opened; writing fails after that many characters\<close>

record env =
  kubectl :: proc
  grype :: "string \<Rightarrow> proc"
  json_loads :: "string \<Rightarrow> json option"
  csv_dest :: fs_outcome

subsection \<open>\<^verbatim>\<open>get_unique_images\<close>\<close>

text \<open>\<^verbatim>\<open>sorted(set(filter(None, lines)))\<close>: the non-empty lines, as a set, in ascending order.\<close>

definition unique_sorted :: "string list \<Rightarrow> string list" where
  "unique_sorted lines = sorted_list_of_set (set (filter (\<lambda>l. l \<noteq> []) lines))"

definition get_unique_images :: "env \<Rightarrow> exn + string list" where
  "get_unique_images e =
     (case kubectl e of
        SpawnError \<Rightarrow> Inl OSError
      | Undecodable \<Rightarrow> Inl UnicodeDecodeError
      | Exited rc out \<Rightarrow>
          if rc \<noteq> 0 then Inl CalledProcessError
          else Inr (unique_sorted (splitlines out)))"

subsection \<open>\<^verbatim>\<open>scan_image\<close>\<close>

text \<open>
  Only \<^verbatim>\<open>subprocess.CalledProcessError\<close> is caught. \<^verbatim>\<open>data.get\<close> exists on a \<^verbatim>\<open>dict\<close> only.
\<close>

definition scan_image :: "env \<Rightarrow> string \<Rightarrow> event list \<times> (exn + json)" where
  "scan_image e img =
     (case grype e img of
        SpawnError \<Rightarrow> ([], Inl OSError)
      | Undecodable \<Rightarrow> ([], Inl UnicodeDecodeError)
      | Exited rc out \<Rightarrow>
          if rc \<noteq> 0
          then ([Stderr (''[!] Warning: failed to scan '' @ img)], Inr (JArr []))
          else (case json_loads e out of
                  None \<Rightarrow> ([], Inl JSONDecodeError)
                | Some (JObj d) \<Rightarrow> ([], Inr (dict_get d ''matches'' (JArr [])))
                | Some _ \<Rightarrow> ([], Inl AttributeError)))"

subsection \<open>\<^verbatim>\<open>summarize\<close>\<close>

definition severities :: "string list" where
  "severities = [''Critical'', ''High'', ''Medium'', ''Low'']"

text \<open>
  A \<^verbatim>\<open>defaultdict(int)\<close> is a map from keys to integers; \<open>count\<close> is \<^verbatim>\<open>d.get(k, 0)\<close>,
  which is also the value \<^verbatim>\<open>d[k]\<close> reads before \<^verbatim>\<open>+=\<close>.
\<close>

type_synonym counts = "string \<rightharpoonup> int"

definition count :: "counts \<Rightarrow> string \<Rightarrow> int" where
  "count d k = (case d k of None \<Rightarrow> 0 | Some v \<Rightarrow> v)"

text \<open>\<^verbatim>\<open>m.get("vulnerability", {}).get("severity", "").capitalize()\<close>\<close>

fun match_severity :: "json \<Rightarrow> exn + string" where
  "match_severity (JObj m) =
     (case dict_get m ''vulnerability'' (JObj []) of
        JObj v \<Rightarrow>
          (case dict_get v ''severity'' (JStr []) of
             JStr s \<Rightarrow> Inr (capitalize s)
           | _ \<Rightarrow> Inl AttributeError)
      | _ \<Rightarrow> Inl AttributeError)"
| "match_severity _ = Inl AttributeError"

fun summarize_loop :: "counts \<Rightarrow> json list \<Rightarrow> exn + counts" where
  "summarize_loop cnt [] = Inr cnt"
| "summarize_loop cnt (m # ms) =
     (case match_severity m of
        Inl x \<Rightarrow> Inl x
      | Inr sev \<Rightarrow>
          summarize_loop
            (if sev \<in> set severities then cnt(sev \<mapsto> count cnt sev + 1) else cnt) ms)"

text \<open>
  What \<^verbatim>\<open>for m in matches\<close> runs over: the elements of a list, the keys of a \<^verbatim>\<open>dict\<close>,
  the characters of a \<^verbatim>\<open>str\<close>; anything else is not iterable.
\<close>

fun iterate :: "json \<Rightarrow> exn + json list" where
  "iterate (JArr xs) = Inr xs"
| "iterate (JObj d) = Inr (map JStr (remdups (map fst d)))"
| "iterate (JStr s) = Inr (map (\<lambda>c. JStr [c]) s)"
| "iterate _ = Inl TypeError"

definition summarize :: "json \<Rightarrow> exn + counts" where
  "summarize matches =
     (case iterate matches of
        Inl x \<Rightarrow> Inl x
      | Inr ms \<Rightarrow> summarize_loop Map.empty ms)"

text \<open>A match object as \<^verbatim>\<open>grype\<close> prints it, reduced to its severity label.\<close>

definition match_with :: "string \<Rightarrow> json" where
  "match_with sev = JObj [(''vulnerability'', JObj [(''severity'', JStr sev)])]"

subsection \<open>Accumulation and the main loop\<close>

text \<open>
  Lines 57 and 58 of \<^verbatim>\<open>main\<close>, the step the specification calls \<open>accumulate\<close>:
  \<^verbatim>\<open>for sev in ("Critical", "High", "Medium", "Low"): total[sev] += s.get(sev, 0)\<close>.
\<close>

definition accumulate :: "counts \<Rightarrow> counts \<Rightarrow> counts" where
  "accumulate tot s =
     foldl (\<lambda>t sev. t(sev \<mapsto> count t sev + count s sev)) tot severities"

text \<open>One row of \<^verbatim>\<open>per_image\<close>: the dictionary with the five keys of the CSV header.\<close>

record report =
  Image_ref :: string
  Critical :: int
  High :: int
  Medium :: int
  Low :: int

definition image_report :: "string \<Rightarrow> counts \<Rightarrow> report" where
  "image_report img s =
     \<lparr>Image_ref = img,
      Critical = count s ''Critical'',
      High = count s ''High'',
      Medium = count s ''Medium'',
      Low = count s ''Low''\<rparr>"

text \<open>The variables of the loop, and what has been printed so far.\<close>

record loop_state =
  total_acc :: counts
  per_image :: "report list"
  out :: "event list"

definition init_state :: loop_state where
  "init_state = \<lparr>total_acc = Map.empty, per_image = [], out = []\<rparr>"

definition rocket :: string where
  "rocket = [CHR 0xF0, CHR 0x9F, CHR 0x9A, CHR 0x80]"

definition bar_chart :: string where
  "bar_chart = [CHR 0xF0, CHR 0x9F, CHR 0x93, CHR 0x8A]"

definition check_mark :: string where
  "check_mark = [CHR 0xE2, CHR 0x9C, CHR 0x85]"

text \<open>
  One pass through the body of \<^verbatim>\<open>for img in images\<close>. An exception of \<open>scan_image\<close> or
  \<open>summarize\<close> leaves the loop with the state reached so far.
\<close>

definition loop_body :: "env \<Rightarrow> string \<Rightarrow> loop_state \<Rightarrow> loop_state \<times> exn option" where
  "loop_body e img st =
     (let st1 = st\<lparr>out := out st @ [Stdout (rocket @ '' Scanning: '' @ img)]\<rparr> in
      case scan_image e img of
        (evs, Inl x) \<Rightarrow> (st1\<lparr>out := out st1 @ evs\<rparr>, Some x)
      | (evs, Inr matches) \<Rightarrow>
          (let st2 = st1\<lparr>out := out st1 @ evs\<rparr> in
           case summarize matches of
             Inl x \<Rightarrow> (st2, Some x)
           | Inr s \<Rightarrow>
               (st2\<lparr>total_acc := accumulate (total_acc st2) s,
                     per_image := per_image st2 @ [image_report img s]\<rparr>, None)))"

fun scan_loop :: "env \<Rightarrow> string list \<Rightarrow> loop_state \<Rightarrow> loop_state \<times> exn option" where
  "scan_loop e [] st = (st, None)"
| "scan_loop e (img # imgs) st =
     (case loop_body e img st of
        (st', Some x) \<Rightarrow> (st', Some x)
      | (st', None) \<Rightarrow> scan_loop e imgs st')"

subsection \<open>The CSV file\<close>

text \<open>
  \<^verbatim>\<open>csv.DictWriter\<close> with the default dialect: fields joined by a comma, a row ended by
  CR LF, a field put in double quotes when it holds a comma, a double quote, CR or LF,
  and a double quote inside it doubled.
\<close>

definition csv_special :: "char \<Rightarrow> bool" where
  "csv_special c = (c = CHR '','' \<or> c = CHR 0x22 \<or> c = CHR 0x0D \<or> c = CHR 0x0A)"

definition csv_field :: "string \<Rightarrow> string" where
  "csv_field s =
     (let body = concat (map (\<lambda>c. if c = CHR 0x22 then [c, c] else [c]) s) in
      if list_ex csv_special s then [CHR 0x22] @ body @ [CHR 0x22] else body)"

fun join :: "string \<Rightarrow> string list \<Rightarrow> string" where
  "join sep [] = []"
| "join sep [x] = x"
| "join sep (x # y # ys) = x @ sep @ join sep (y # ys)"

definition csv_row :: "string list \<Rightarrow> string" where
  "csv_row cells = join '','' (map csv_field cells) @ [CHR 0x0D, CHR 0x0A]"

definition fieldnames :: "string list" where
  "fieldnames = [''Image'', ''Critical'', ''High'', ''Medium'', ''Low'']"

text \<open>The cells of a row in the order of \<open>fieldnames\<close>; the writer prints an integer with \<^verbatim>\<open>str\<close>.\<close>

definition report_cells :: "report \<Rightarrow> string list" where
  "report_cells r =
     [Image_ref r, str_int (Critical r), str_int (High r), str_int (Medium r), str_int (Low r)]"

definition csv_text :: "report list \<Rightarrow> string" where
  "csv_text rows = csv_row fieldnames @ concat (map (\<lambda>r. csv_row (report_cells r)) rows)"

definition csv_file :: string where
  "csv_file = ''grype-per-image-report.csv''"

definition write_csv :: "fs_outcome \<Rightarrow> report list \<Rightarrow> event list \<times> (exn + unit)" where
  "write_csv fs rows =
     (case fs of
        FsOk \<Rightarrow> ([FileWritten csv_file (csv_text rows)], Inr ())
      | FsOpenError \<Rightarrow> ([], Inl OSError)
      | FsWriteError k \<Rightarrow> ([FileWritten csv_file (take k (csv_text rows))], Inl OSError))"

subsection \<open>\<^verbatim>\<open>main\<close>\<close>

definition summary_row :: "counts \<Rightarrow> int list" where
  "summary_row tot =
     [count tot ''Critical'', count tot ''High'', count tot ''Medium'', count tot ''Low'']"

definition main :: "env \<Rightarrow> event list \<times> (exn + unit)" where
  "main e =
     (case get_unique_images e of
        Inl x \<Rightarrow> ([], Inl x)
      | Inr images \<Rightarrow>
          if images = [] then ([Stderr ''No images found.''], Inl (SystemExit 1))
          else
            (case scan_loop e images init_state of
               (st, Some x) \<Rightarrow> (out st, Inl x)
             | (st, None) \<Rightarrow>
                 (let evs = out st @
                        [Stdout (CHR 0x0A # bar_chart @ '' Total Vulnerability Summary:''),
                         StdoutTable [''Critical'', ''High'', ''Medium'', ''Low'']
                           [summary_row (total_acc st)]]
                  in case write_csv (csv_dest e) (per_image st) of
                       (w, Inl x) \<Rightarrow> (evs @ w, Inl x)
                     | (w, Inr u) \<Rightarrow>
                         (evs @ w @
                            [Stdout (CHR 0x0A # check_mark
                                       @ '' Per-image details written to: '' @ csv_file)],
                          Inr ()))))"

text \<open>
  The exit status of the process: 0 when \<^verbatim>\<open>main\<close> returns, the argument of \<^verbatim>\<open>sys.exit\<close>,
  and 1 when the interpreter ends on an exception nobody caught.
\<close>

fun exit_status :: "exn + unit \<Rightarrow> int" where
  "exit_status (Inr u) = 0"
| "exit_status (Inl (SystemExit n)) = n"
| "exit_status (Inl x) = 1"

text \<open>What reached the diagnostic stream, and which files were written.\<close>

fun stderr_of :: "event list \<Rightarrow> string list" where
  "stderr_of [] = []"
| "stderr_of (Stderr s # evs) = s # stderr_of evs"
| "stderr_of (ev # evs) = stderr_of evs"

fun files_of :: "event list \<Rightarrow> (string \<times> string) list" where
  "files_of [] = []"
| "files_of (FileWritten name text # evs) = (name, text) # files_of evs"
| "files_of (ev # evs) = files_of evs"

subsection \<open>Example environments\<close>

text \<open>
  Two images in the cluster, one listed twice. The scanner exits with status 1 on the
  first image and prints, for the second, a document with four matches.
\<close>

definition redis_doc :: json where
  "redis_doc = JObj [(''matches'',
     JArr [match_with ''Critical'', match_with ''high'',
           match_with ''HIGH'', match_with ''unknown''])]"

definition kubectl_lines :: string where
  "kubectl_lines = ''nginx:1.21'' @ [CHR 0x0A] @ ''nginx:1.21'' @ [CHR 0x0A]
                   @ ''redis:7'' @ [CHR 0x0A]"

definition env_demo :: env where
  "env_demo =
     \<lparr>kubectl = Exited 0 kubectl_lines,
      grype = (\<lambda>img. if img = ''nginx:1.21'' then Exited 1 [] else Exited 0 ''redis.json''),
      json_loads = (\<lambda>s. if s = ''redis.json'' then Some redis_doc else None),
      csv_dest = FsOk\<rparr>"

text \<open>The same cluster; the scanner exits with status 0 and prints text that is not JSON.\<close>

definition env_garbled :: env where
  "env_garbled =
     \<lparr>kubectl = Exited 0 kubectl_lines,
      grype = (\<lambda>img. Exited 0 ''panic: runtime error''),
      json_loads = (\<lambda>s. if s = ''{}'' then Some (JObj []) else None),
      csv_dest = FsOk\<rparr>"

text \<open>The same cluster; the scanner is not installed.\<close>

definition env_no_scanner :: env where
  "env_no_scanner =
     \<lparr>kubectl = Exited 0 kubectl_lines,
      grype = (\<lambda>img. SpawnError),
      json_loads = (\<lambda>s. if s = ''{}'' then Some (JObj []) else None),
      csv_dest = FsOk\<rparr>"

text \<open>
  The same cluster, every scan succeeds with the four matches, and the program runs in a
  directory where the report file cannot be created.
\<close>

definition env_readonly :: env where
  "env_readonly =
     \<lparr>kubectl = Exited 0 kubectl_lines,
      grype = (\<lambda>img. Exited 0 ''redis.json''),
      json_loads = (\<lambda>s. if s = ''redis.json'' then Some redis_doc else None),
      csv_dest = FsOpenError\<rparr>"

text \<open>A cluster without pods: the query succeeds and prints nothing.\<close>

definition env_empty :: env where
  "env_empty = env_demo\<lparr>kubectl := Exited 0 []\<rparr>"

text \<open>A scanner that prints, for every image, a document without a list of matches.\<close>

definition env_no_matches :: env where
  "env_no_matches =
     env_demo\<lparr>grype := (\<lambda>img. Exited 0 ''{}''),
                json_loads := (\<lambda>s. if s = ''{}'' then Some (JObj []) else None)\<rparr>"

subsection \<open>Notions used in the statements\<close>

text \<open>
  A match object: a dictionary whose \<^verbatim>\<open>vulnerability\<close>, when present, is a dictionary
  whose \<^verbatim>\<open>severity\<close>, when present, is a string.
\<close>

fun is_match :: "json \<Rightarrow> bool" where
  "is_match (JObj m) =
     (case map_of m ''vulnerability'' of
        None \<Rightarrow> True
      | Some (JObj v) \<Rightarrow>
          (case map_of v ''severity'' of
             None \<Rightarrow> True
           | Some (JStr s) \<Rightarrow> True
           | Some other \<Rightarrow> False)
      | Some other \<Rightarrow> False)"
| "is_match other = False"

text \<open>The match has the label \<open>k\<close> after normalisation; it has one of the four labels.\<close>

definition has_severity :: "string \<Rightarrow> json \<Rightarrow> bool" where
  "has_severity k m = (match_severity m = Inr k)"

definition recognized :: "json \<Rightarrow> bool" where
  "recognized m =
     (case match_severity m of Inl x \<Rightarrow> False | Inr sev \<Rightarrow> sev \<in> set severities)"

text \<open>Six matches: a missing \<^verbatim>\<open>vulnerability\<close>, a missing \<^verbatim>\<open>severity\<close>, an unknown label.\<close>

definition sample_matches :: "json list" where
  "sample_matches =
     [match_with ''low'', JObj [], match_with ''bogus'', match_with ''Low'',
      JObj [(''vulnerability'', JObj [])], match_with ''MEDIUM'']"

text \<open>
  The running total agrees with the rows collected so far: for each of the four
  severities, what \<^verbatim>\<open>total.get(sev, 0)\<close> reads is the sum of that column of \<^verbatim>\<open>per_image\<close>.
\<close>

definition totals_match :: "loop_state \<Rightarrow> bool" where
  "totals_match st =
     (summary_row (total_acc st)
        = [sum_list (map Critical (per_image st)), sum_list (map High (per_image st)),
           sum_list (map Medium (per_image st)), sum_list (map Low (per_image st))])"

text \<open>Two per-image counts, as \<open>summarize\<close> returns them.\<close>

definition counts_a :: counts where
  "counts_a = [''Critical'' \<mapsto> 1, ''Medium'' \<mapsto> 2]"

definition counts_b :: counts where
  "counts_b = [''High'' \<mapsto> 3, ''Low'' \<mapsto> 1]"


text \<open>The scanner was started for \<open>img\<close> and returned a non-zero status.\<close>

definition scan_failed :: "env \<Rightarrow> string \<Rightarrow> bool" where
  "scan_failed e img =
     (case grype e img of
        SpawnError \<Rightarrow> False
      | Undecodable \<Rightarrow> False
      | Exited rc text \<Rightarrow> rc \<noteq> 0)"

section \<open>Properties\<close>

subsection \<open>Evaluation of the examples\<close>


lemma splitlines_Nil: "splitlines [] = []"
  by (simp add: splitlines_def splitlines_from.simps)

lemma splitlines_kubectl_lines:
  "splitlines kubectl_lines = [''nginx:1.21'', ''nginx:1.21'', ''redis:7'']"
  by code_simp

lemma unique_sorted_scenario_A:
  "unique_sorted [''nginx:1.21'', ''nginx:1.21'', ''redis:7''] = [''nginx:1.21'', ''redis:7'']"
  by code_simp

lemma summarize_Nil: "summarize (JArr []) = Inr Map.empty"
  by (simp add: summarize_def)

lemma count_empty: "count Map.empty k = 0"
  by (simp add: count_def)

subsection \<open>Severity normalisation\<close>


subsection \<open>The inventory\<close>

text \<open>
  C3. Whatever lines the inventory query prints, with duplicates and blank lines among
  them, the collected list has no empty string and no duplicate, is in ascending
  lexicographic order, and holds exactly the non-empty lines. The lines nginx:1.21,
  nginx:1.21, redis:7 give nginx:1.21, redis:7.
\<close>

theorem unique_sorted_spec:
  "[] \<notin> set (unique_sorted lines)
   \<and> distinct (unique_sorted lines)
   \<and> sorted (unique_sorted lines)
   \<and> set (unique_sorted lines) = set lines - {[]}
   \<and> get_unique_images (e\<lparr>kubectl := Exited 0 text\<rparr>) = Inr (unique_sorted (splitlines text))
   \<and> unique_sorted [''nginx:1.21'', ''nginx:1.21'', ''redis:7'']
       = [''nginx:1.21'', ''redis:7'']"
proof -
  have "set (filter (\<lambda>l. l \<noteq> []) lines) = set lines - {[]}"
    by auto
  then show ?thesis
    by (simp add: unique_sorted_def get_unique_images_def
        unique_sorted_scenario_A [unfolded unique_sorted_def])
qed

subsection \<open>An empty inventory\<close>

text \<open>
  C6. When the collector returns no image, the program prints the message
  \<^verbatim>\<open>No images found.\<close> on the diagnostic stream and nothing else, ends with exit
  status 1, and writes no file.
\<close>

theorem main_no_images:
  assumes "get_unique_images e = Inr []"
  shows "main e = ([Stderr ''No images found.''], Inl (SystemExit 1))
         \<and> stderr_of (fst (main e)) = [''No images found.'']
         \<and> exit_status (snd (main e)) = 1
         \<and> files_of (fst (main e)) = []"
  using assms by (simp add: main_def)

theorem main_no_images_witness:
  "get_unique_images env_empty = Inr []
   \<and> main env_empty = ([Stderr ''No images found.''], Inl (SystemExit 1))
   \<and> exit_status (snd (main env_empty)) = 1
   \<and> files_of (fst (main env_empty)) = []"
proof -
  have h: "get_unique_images env_empty = Inr []"
    by (simp add: get_unique_images_def env_empty_def env_demo_def splitlines_Nil
        unique_sorted_def)
  show ?thesis
    using h main_no_images [OF h] by simp
qed

subsection \<open>A scanner document without matches\<close>

text \<open>
  C10. When the scanner exits with status 0 and its output parses to an object that has
  no \<^verbatim>\<open>matches\<close> field, \<open>scan_image\<close> returns the empty list and raises nothing, and
  the row of the image has the four counts 0.
\<close>

theorem scan_image_no_matches_field:
  assumes "grype e img = Exited 0 text"
    and "json_loads e text = Some (JObj d)"
    and "map_of d ''matches'' = None"
  shows "scan_image e img = ([], Inr (JArr []))
         \<and> summarize (JArr []) = Inr Map.empty
         \<and> image_report img Map.empty
             = \<lparr>Image_ref = img, Critical = 0, High = 0, Medium = 0, Low = 0\<rparr>
         \<and> loop_body e img st
             = (st\<lparr>out := out st @ [Stdout (rocket @ '' Scanning: '' @ img)],
                    total_acc := accumulate (total_acc st) Map.empty,
                    per_image := per_image st
                      @ [\<lparr>Image_ref = img, Critical = 0, High = 0, Medium = 0, Low = 0\<rparr>]\<rparr>,
                None)"
proof -
  have scan: "scan_image e img = ([], Inr (JArr []))"
    using assms by (simp add: scan_image_def dict_get_def)
  have row: "image_report img Map.empty
             = \<lparr>Image_ref = img, Critical = 0, High = 0, Medium = 0, Low = 0\<rparr>"
    by (simp add: image_report_def count_empty)
  show ?thesis
    using scan row by (simp add: loop_body_def summarize_Nil)
qed

theorem scan_image_no_matches_field_witness:
  "grype env_no_matches ''redis:7'' = Exited 0 ''{}''
   \<and> json_loads env_no_matches ''{}'' = Some (JObj [])
   \<and> map_of ([] :: (string \<times> json) list) ''matches'' = None
   \<and> scan_image env_no_matches ''redis:7'' = ([], Inr (JArr []))
   \<and> per_image (fst (loop_body env_no_matches ''redis:7'' init_state))
       = [\<lparr>Image_ref = ''redis:7'', Critical = 0, High = 0, Medium = 0, Low = 0\<rparr>]"
proof -
  have g: "grype env_no_matches ''redis:7'' = Exited 0 ''{}''"
    by (simp add: env_no_matches_def)
  have j: "json_loads env_no_matches ''{}'' = Some (JObj [])"
    by (simp add: env_no_matches_def)
  have m: "map_of ([] :: (string \<times> json) list) ''matches'' = None"
    by simp
  show ?thesis
    using g j scan_image_no_matches_field [OF g j m, of init_state]
    by (simp add: init_state_def)
qed

subsection \<open>Counting by severity\<close>

lemma is_match_iff: "is_match m \<longleftrightarrow> (\<exists>s. match_severity m = Inr s)"
proof (cases m)
  case (JObj d)
  show ?thesis
  proof (cases "map_of d ''vulnerability''")
    case None
    with JObj show ?thesis by (simp add: dict_get_def)
  next
    case (Some v)
    show ?thesis
    proof (cases v)
      case (JObj vd)
      note vd = this
      show ?thesis
      proof (cases "map_of vd ''severity''")
        case None
        with \<open>m = JObj d\<close> Some vd show ?thesis by (simp add: dict_get_def)
      next
        case (Some sv)
        with \<open>m = JObj d\<close> \<open>map_of d ''vulnerability'' = Some v\<close> vd show ?thesis
          by (cases sv) (simp_all add: dict_get_def)
      qed
    qed (use \<open>m = JObj d\<close> Some in \<open>simp_all add: dict_get_def\<close>)
  qed
qed simp_all

lemma is_match_severity: "is_match m \<Longrightarrow> \<exists>s. match_severity m = Inr s"
  by (simp add: is_match_iff)

lemma summarize_loop_counts:
  assumes "list_all is_match ms"
  shows "\<exists>c. summarize_loop cnt ms = Inr c
           \<and> (\<forall>k. count c k = count cnt k
                  + (if k \<in> set severities then int (length (filter (has_severity k) ms)) else 0))"
  using assms
proof (induction ms arbitrary: cnt)
  case Nil
  then show ?case by simp
next
  case (Cons m ms)
  from Cons.prems obtain s where s: "match_severity m = Inr s"
    using is_match_severity by auto
  let ?cnt = "if s \<in> set severities then cnt(s \<mapsto> count cnt s + 1) else cnt"
  from Cons.prems have "list_all is_match ms" by simp
  from Cons.IH [OF this, of ?cnt] obtain c where
    c: "summarize_loop ?cnt ms = Inr c"
    and ck: "\<And>k. count c k = count ?cnt k
                  + (if k \<in> set severities then int (length (filter (has_severity k) ms)) else 0)"
    by blast
  have "summarize_loop cnt (m # ms) = Inr c"
    using s c by simp
  moreover have "count c k = count cnt k
      + (if k \<in> set severities then int (length (filter (has_severity k) (m # ms))) else 0)" for k
    using ck [of k] s by (simp add: has_severity_def count_def)
  ultimately show ?case by blast
qed

lemma summarize_loop_filter:
  "list_all is_match ms \<Longrightarrow>
   summarize_loop cnt (filter recognized ms) = summarize_loop cnt ms"
proof (induction ms arbitrary: cnt)
  case Nil
  then show ?case by simp
next
  case (Cons m ms)
  from Cons.prems obtain s where s: "match_severity m = Inr s"
    using is_match_severity by auto
  from Cons.prems have "list_all is_match ms" by simp
  then show ?case
    using s Cons.IH by (simp add: recognized_def)
qed

lemma length_recognized:
  "int (length (filter recognized ms))
   = int (length (filter (has_severity ''Critical'') ms))
     + int (length (filter (has_severity ''High'') ms))
     + int (length (filter (has_severity ''Medium'') ms))
     + int (length (filter (has_severity ''Low'') ms))"
proof (induction ms)
  case Nil
  then show ?case by simp
next
  case (Cons m ms)
  show ?case
  proof (cases "match_severity m")
    case (Inl x)
    with Cons show ?thesis by (simp add: recognized_def has_severity_def)
  next
    case (Inr s)
    with Cons show ?thesis by (simp add: recognized_def has_severity_def severities_def)
  qed
qed


lemma missing_severity_unrecognized:
  "map_of d ''vulnerability'' = None \<Longrightarrow> is_match (JObj d)"
  "map_of d ''vulnerability'' = None \<Longrightarrow> \<not> recognized (JObj d)"
  "map_of d ''vulnerability'' = Some (JObj v) \<Longrightarrow> map_of v ''severity'' = None
     \<Longrightarrow> is_match (JObj d)"
  "map_of d ''vulnerability'' = Some (JObj v) \<Longrightarrow> map_of v ''severity'' = None
     \<Longrightarrow> \<not> recognized (JObj d)"
  by (simp_all add: recognized_def dict_get_def severities_def)

lemma malformed_match_raises:
  "summarize (JArr [JObj [(''vulnerability'', JObj [(''severity'', JNull)])]]) = Inl AttributeError"
  "summarize (JArr [JObj [(''vulnerability'', JNull)]]) = Inl AttributeError"
  "summarize (JArr [JStr ''High'']) = Inl AttributeError"
  "summarize JNull = Inl TypeError"
  by (simp_all add: summarize_def dict_get_def)

lemma capitalize_samples:
  "capitalize ''low'' = ''Low''" "capitalize ''bogus'' = ''Bogus''"
  "capitalize ''MEDIUM'' = ''Medium''" "capitalize ''Low'' = ''Low''"
  by code_simp+

text \<open>
  C2. For every list of match objects, \<open>summarize\<close> returns counts whose four buckets
  sum to the number of matches whose normalised severity is one of Critical, High,
  Medium, Low. Each bucket counts the matches with its own label, and the matches with
  a missing severity or any other label add nothing: summarising the list without them
  gives the same counts. A match without \<^verbatim>\<open>vulnerability\<close>, or without \<^verbatim>\<open>severity\<close> in it,
  is a match object with none of the four labels.
\<close>

theorem summarize_counts:
  assumes "list_all is_match ms"
  shows "(\<exists>cnt. summarize (JArr ms) = Inr cnt
           \<and> count cnt ''Critical'' + count cnt ''High'' + count cnt ''Medium'' + count cnt ''Low''
               = int (length (filter recognized ms))
           \<and> count cnt ''Critical'' = int (length (filter (has_severity ''Critical'') ms))
           \<and> count cnt ''High'' = int (length (filter (has_severity ''High'') ms))
           \<and> count cnt ''Medium'' = int (length (filter (has_severity ''Medium'') ms))
           \<and> count cnt ''Low'' = int (length (filter (has_severity ''Low'') ms))
           \<and> summarize (JArr (filter recognized ms)) = Inr cnt)
         \<and> (map_of d ''vulnerability'' = None
              \<longrightarrow> is_match (JObj d) \<and> \<not> recognized (JObj d))
         \<and> (map_of d ''vulnerability'' = Some (JObj v) \<and> map_of v ''severity'' = None
              \<longrightarrow> is_match (JObj d) \<and> \<not> recognized (JObj d))"
proof -
  from summarize_loop_counts [OF assms, of Map.empty] obtain c where
    c: "summarize_loop Map.empty ms = Inr c"
    and ck: "\<And>k. count c k = count Map.empty k
                  + (if k \<in> set severities then int (length (filter (has_severity k) ms)) else 0)"
    by blast
  have each: "count c ''Critical'' = int (length (filter (has_severity ''Critical'') ms))"
    "count c ''High'' = int (length (filter (has_severity ''High'') ms))"
    "count c ''Medium'' = int (length (filter (has_severity ''Medium'') ms))"
    "count c ''Low'' = int (length (filter (has_severity ''Low'') ms))"
    using ck by (simp_all add: count_empty severities_def)
  have "summarize (JArr ms) = Inr c"
    using c by (simp add: summarize_def)
  moreover have "summarize (JArr (filter recognized ms)) = Inr c"
    using c summarize_loop_filter [OF assms, of Map.empty] by (simp add: summarize_def)
  moreover have "count c ''Critical'' + count c ''High'' + count c ''Medium'' + count c ''Low''
               = int (length (filter recognized ms))"
    using each by (simp add: length_recognized)
  ultimately have "\<exists>cnt. summarize (JArr ms) = Inr cnt
           \<and> count cnt ''Critical'' + count cnt ''High'' + count cnt ''Medium'' + count cnt ''Low''
               = int (length (filter recognized ms))
           \<and> count cnt ''Critical'' = int (length (filter (has_severity ''Critical'') ms))
           \<and> count cnt ''High'' = int (length (filter (has_severity ''High'') ms))
           \<and> count cnt ''Medium'' = int (length (filter (has_severity ''Medium'') ms))
           \<and> count cnt ''Low'' = int (length (filter (has_severity ''Low'') ms))
           \<and> summarize (JArr (filter recognized ms)) = Inr cnt"
    using each by blast
  then show ?thesis
    using missing_severity_unrecognized [of d] missing_severity_unrecognized(3,4) [of d v]
    by blast
qed

theorem summarize_counts_witness:
  "list_all is_match sample_matches
   \<and> summarize (JArr sample_matches) = Inr [''Low'' \<mapsto> 2, ''Medium'' \<mapsto> 1]
   \<and> filter recognized sample_matches
       = [match_with ''low'', match_with ''Low'', match_with ''MEDIUM'']
   \<and> \<not> recognized (JObj []) \<and> \<not> recognized (JObj [(''vulnerability'', JObj [])])
   \<and> \<not> recognized (match_with ''bogus'')"
proof -
  have wf: "list_all is_match sample_matches"
    by (simp add: sample_matches_def match_with_def)
  have run: "summarize (JArr sample_matches) = Inr [''Low'' \<mapsto> 2, ''Medium'' \<mapsto> 1]"
    by (simp add: sample_matches_def summarize_def match_with_def dict_get_def severities_def
        count_def capitalize_samples del: capitalize.simps(2))
  have keep: "filter recognized sample_matches
       = [match_with ''low'', match_with ''Low'', match_with ''MEDIUM'']"
    by (simp add: sample_matches_def recognized_def match_with_def dict_get_def severities_def
        capitalize_samples del: capitalize.simps(2))
  have drop: "\<not> recognized (JObj [])" "\<not> recognized (JObj [(''vulnerability'', JObj [])])"
    "\<not> recognized (match_with ''bogus'')"
    by (simp_all add: recognized_def match_with_def dict_get_def severities_def
        capitalize_samples del: capitalize.simps(2))
  show ?thesis
    using wf run keep drop summarize_counts [OF wf] by simp
qed

subsection \<open>Accumulating the total\<close>

lemma accumulate_apply:
  "accumulate t s k = (if k \<in> set severities then Some (count t k + count s k) else t k)"
  by (simp add: accumulate_def severities_def count_def)

lemma count_accumulate:
  "count (accumulate t s) k = (if k \<in> set severities then count t k + count s k else count t k)"
  by (simp add: count_def accumulate_apply)

lemma foldl_accumulate_apply:
  "foldl accumulate t xs k =
     (if k \<in> set severities \<and> xs \<noteq> []
      then Some (count t k + sum_list (map (\<lambda>s. count s k) xs)) else t k)"
proof (induction xs arbitrary: t)
  case Nil
  then show ?case by simp
next
  case (Cons x xs)
  have "foldl accumulate t (x # xs) k = foldl accumulate (accumulate t x) xs k"
    by simp
  also have "\<dots> = (if k \<in> set severities \<and> xs \<noteq> []
      then Some (count (accumulate t x) k + sum_list (map (\<lambda>s. count s k) xs))
      else accumulate t x k)"
    by (rule Cons.IH)
  also have "\<dots> = (if k \<in> set severities \<and> x # xs \<noteq> []
      then Some (count t k + sum_list (map (\<lambda>s. count s k) (x # xs))) else t k)"
    by (simp add: accumulate_apply count_accumulate)
  finally show ?case .
qed

lemma sum_list_mset_cong:
  assumes "mset xs = mset ys"
  shows "sum_list (map f xs) = (sum_list (map f ys) :: int)"
proof -
  have "sum_list (map f xs) = sum_mset (image_mset f (mset xs))"
    by (simp flip: sum_mset_sum_list)
  also have "\<dots> = sum_mset (image_mset f (mset ys))"
    using assms by simp
  also have "\<dots> = sum_list (map f ys)"
    by (simp flip: sum_mset_sum_list)
  finally show ?thesis .
qed

lemma foldl_accumulate_mset:
  assumes "mset xs = mset ys"
  shows "foldl accumulate t xs = foldl accumulate t ys"
proof
  fix k
  from assms have "xs = [] \<longleftrightarrow> ys = []"
    by (metis mset_zero_iff)
  then show "foldl accumulate t xs k = foldl accumulate t ys k"
    using sum_list_mset_cong [OF assms, of "\<lambda>s. count s k"]
    by (simp add: foldl_accumulate_apply)
qed

lemma accumulate_assoc: "accumulate (accumulate a b) c = accumulate a (accumulate b c)"
  by (rule ext) (simp add: accumulate_apply count_accumulate)

lemma accumulate_commute:
  assumes "dom a \<subseteq> set severities" and "dom b \<subseteq> set severities"
  shows "accumulate a b = accumulate b a"
proof
  fix k
  show "accumulate a b k = accumulate b a k"
  proof (cases "k \<in> set severities")
    case True
    then show ?thesis by (simp add: accumulate_apply)
  next
    case False
    with assms have "a k = None" and "b k = None"
      by (auto simp: domIff)
    with False show ?thesis by (simp add: accumulate_apply)
  qed
qed

lemma summarize_loop_dom:
  "summarize_loop cnt ms = Inr c \<Longrightarrow> dom c \<subseteq> dom cnt \<union> set severities"
proof (induction ms arbitrary: cnt)
  case Nil
  then show ?case by auto
next
  case (Cons m ms)
  show ?case
  proof (cases "match_severity m")
    case (Inl x)
    with Cons.prems show ?thesis by simp
  next
    case (Inr sev)
    with Cons.prems Cons.IH
      [of "if sev \<in> set severities then cnt(sev \<mapsto> count cnt sev + 1) else cnt"]
    show ?thesis by (auto split: if_splits)
  qed
qed

lemma summarize_dom:
  assumes "summarize matches = Inr s"
  shows "dom s \<subseteq> set severities"
proof (cases "iterate matches")
  case (Inl x)
  with assms show ?thesis by (simp add: summarize_def)
next
  case (Inr ms)
  with assms have "summarize_loop Map.empty ms = Inr s"
    by (simp add: summarize_def)
  from summarize_loop_dom [OF this] show ?thesis by simp
qed

lemma summary_row_accumulate:
  "summary_row (accumulate t s) = map2 (+) (summary_row t) (summary_row s)"
  by (simp add: summary_row_def count_accumulate severities_def)

lemma summary_row_foldl:
  "summary_row (foldl accumulate t xs) =
     [count t ''Critical'' + sum_list (map (\<lambda>s. count s ''Critical'') xs),
      count t ''High'' + sum_list (map (\<lambda>s. count s ''High'') xs),
      count t ''Medium'' + sum_list (map (\<lambda>s. count s ''Medium'') xs),
      count t ''Low'' + sum_list (map (\<lambda>s. count s ''Low'') xs)]"
  by (induction xs arbitrary: t) (simp_all add: summary_row_def count_accumulate severities_def)

text \<open>
  C5. The accumulation step adds the per-image counts to the running total severity by
  severity. It is commutative on the four severities and associative, so folding a
  sequence of per-image counts in any order gives the same total, and that total is
  the severity-wise sum of the sequence.
\<close>

theorem accumulate_order_independent:
  "summary_row (accumulate t s) = map2 (+) (summary_row t) (summary_row s)
   \<and> summary_row (accumulate a b) = summary_row (accumulate b a)
   \<and> (dom a \<subseteq> set severities \<and> dom b \<subseteq> set severities
        \<longrightarrow> accumulate a b = accumulate b a)
   \<and> accumulate (accumulate a b) c = accumulate a (accumulate b c)
   \<and> (mset xs = mset ys \<longrightarrow> foldl accumulate t xs = foldl accumulate t ys)
   \<and> summary_row (foldl accumulate Map.empty xs)
       = [sum_list (map (\<lambda>s. count s ''Critical'') xs), sum_list (map (\<lambda>s. count s ''High'') xs),
          sum_list (map (\<lambda>s. count s ''Medium'') xs), sum_list (map (\<lambda>s. count s ''Low'') xs)]"
proof -
  have "summary_row (accumulate a b) = summary_row (accumulate b a)"
    by (simp add: summary_row_def count_accumulate severities_def)
  moreover have "summary_row (foldl accumulate Map.empty xs)
       = [sum_list (map (\<lambda>s. count s ''Critical'') xs), sum_list (map (\<lambda>s. count s ''High'') xs),
          sum_list (map (\<lambda>s. count s ''Medium'') xs), sum_list (map (\<lambda>s. count s ''Low'') xs)]"
    by (simp add: summary_row_foldl count_empty)
  ultimately show ?thesis
    using summary_row_accumulate [of t s] accumulate_assoc [of a b c]
      foldl_accumulate_mset [of xs ys t] accumulate_commute [of a b]
    by blast
qed

theorem accumulate_order_independent_witness:
  "mset [counts_a, counts_b] = mset [counts_b, counts_a]
   \<and> dom counts_a \<subseteq> set severities \<and> dom counts_b \<subseteq> set severities
   \<and> accumulate counts_a counts_b = accumulate counts_b counts_a
   \<and> foldl accumulate Map.empty [counts_a, counts_b]
       = foldl accumulate Map.empty [counts_b, counts_a]
   \<and> summary_row (foldl accumulate Map.empty [counts_a, counts_b]) = [1, 3, 2, 1]"
proof -
  have m: "mset [counts_a, counts_b] = mset [counts_b, counts_a]"
    by simp
  have "summary_row (foldl accumulate Map.empty [counts_a, counts_b]) = [1, 3, 2, 1]"
    by (simp add: summary_row_def count_accumulate severities_def count_empty)
       (simp add: counts_a_def counts_b_def count_def)
  moreover have d: "dom counts_a \<subseteq> set severities" "dom counts_b \<subseteq> set severities"
    by (simp_all add: counts_a_def counts_b_def severities_def)
  ultimately show ?thesis
    using m accumulate_order_independent
      [where xs = "[counts_a, counts_b]" and ys = "[counts_b, counts_a]" and t = Map.empty
        and a = counts_a and b = counts_b]
    by blast
qed

subsection \<open>The invariant of the main loop\<close>

lemma loop_body_totals:
  assumes "totals_match st"
  shows "totals_match (fst (loop_body e img st))"
proof (cases "scan_image e img")
  case (Pair evs r)
  show ?thesis
  proof (cases r)
    case (Inl x)
    with Pair assms show ?thesis
      by (simp add: loop_body_def totals_match_def)
  next
    case (Inr matches)
    show ?thesis
    proof (cases "summarize matches")
      case (Inl x)
      with Pair \<open>r = Inr matches\<close> assms show ?thesis
        by (simp add: loop_body_def totals_match_def)
    next
      case (Inr s)
      have "summary_row (accumulate (total_acc st) s)
            = map2 (+) (summary_row (total_acc st)) (summary_row s)"
        by (rule summary_row_accumulate)
      with Pair \<open>r = Inr matches\<close> Inr assms show ?thesis
        by (simp add: loop_body_def totals_match_def image_report_def summary_row_def)
    qed
  qed
qed

lemma scan_loop_totals:
  "totals_match st \<Longrightarrow> totals_match (fst (scan_loop e imgs st))"
proof (induction imgs arbitrary: st)
  case Nil
  then show ?case by simp
next
  case (Cons img imgs)
  obtain st' r where b: "loop_body e img st = (st', r)"
    by (cases "loop_body e img st")
  with loop_body_totals [OF Cons.prems, of e img] have t: "totals_match st'"
    by simp
  show ?case
  proof (cases r)
    case None
    with b Cons.IH [OF t] show ?thesis by simp
  next
    case (Some x)
    with b t show ?thesis by simp
  qed
qed

lemma scan_loop_append:
  "scan_loop e (seen @ rest) st =
     (case scan_loop e seen st of
        (st', None) \<Rightarrow> scan_loop e rest st'
      | (st', Some x) \<Rightarrow> (st', Some x))"
proof (induction seen arbitrary: st)
  case Nil
  then show ?case by simp
next
  case (Cons img seen)
  obtain st' r where b: "loop_body e img st = (st', r)"
    by (cases "loop_body e img st")
  show ?case
    using b Cons.IH [of st'] by (cases r) simp_all
qed

lemma totals_match_init: "totals_match init_state"
  by (simp add: totals_match_def init_state_def summary_row_def count_empty)

text \<open>
  C4. Whatever prefix \<open>seen\<close> of the images the main loop has processed, the running total
  of each of the four severities equals the sum of that severity over the rows appended
  so far. The state after \<open>seen\<close> is the state from which the loop goes on with the rest.
\<close>

theorem total_equals_sum_of_reports:
  "(let st = fst (scan_loop e seen init_state) in
      count (total_acc st) ''Critical'' = sum_list (map Critical (per_image st))
      \<and> count (total_acc st) ''High'' = sum_list (map High (per_image st))
      \<and> count (total_acc st) ''Medium'' = sum_list (map Medium (per_image st))
      \<and> count (total_acc st) ''Low'' = sum_list (map Low (per_image st)))
   \<and> scan_loop e (seen @ rest) init_state =
       (case scan_loop e seen init_state of
          (st, None) \<Rightarrow> scan_loop e rest st
        | (st, Some x) \<Rightarrow> (st, Some x))"
proof -
  have "totals_match (fst (scan_loop e seen init_state))"
    by (rule scan_loop_totals [OF totals_match_init])
  then show ?thesis
    using scan_loop_append [of e seen rest init_state]
    by (simp add: totals_match_def summary_row_def Let_def)
qed

subsection \<open>What the loop prints and collects\<close>

lemma files_of_append: "files_of (xs @ ys) = files_of xs @ files_of ys"
  by (induction xs rule: files_of.induct) simp_all

lemma stderr_of_append: "stderr_of (xs @ ys) = stderr_of xs @ stderr_of ys"
  by (induction xs rule: stderr_of.induct) simp_all

lemma scan_image_events:
  "fst (scan_image e img)
   = (if scan_failed e img then [Stderr (''[!] Warning: failed to scan '' @ img)] else [])"
  by (simp add: scan_image_def scan_failed_def split: proc.splits option.splits json.splits)

lemma loop_body_out:
  "out (fst (loop_body e img st))
   = out st @ [Stdout (rocket @ '' Scanning: '' @ img)] @ fst (scan_image e img)"
  by (simp add: loop_body_def Let_def split: prod.splits sum.splits)


lemma scan_loop_files: "files_of (out (fst (scan_loop e imgs st))) = files_of (out st)"
proof (induction imgs arbitrary: st)
  case Nil
  then show ?case by simp
next
  case (Cons img imgs)
  obtain st' r where b: "loop_body e img st = (st', r)"
    by (cases "loop_body e img st")
  have "out st' = out st @ [Stdout (rocket @ '' Scanning: '' @ img)] @ fst (scan_image e img)"
    using loop_body_out [of e img st] b by simp
  then have f: "files_of (out st') = files_of (out st)"
    by (simp add: files_of_append scan_image_events)
  show ?case
  proof (cases r)
    case None
    with b f Cons.IH [of st'] show ?thesis by simp
  next
    case (Some x)
    with b f show ?thesis by simp
  qed
qed

lemma scan_loop_out:
  "scan_loop e imgs st = (st', None) \<Longrightarrow>
   out st'
   = out st
     @ concat (map (\<lambda>img. Stdout (rocket @ '' Scanning: '' @ img)
                       # (if scan_failed e img
                          then [Stderr (''[!] Warning: failed to scan '' @ img)]
                          else [])) imgs)"
proof (induction imgs arbitrary: st)
  case Nil
  then show ?case by simp
next
  case (Cons img imgs)
  obtain st1 r where b: "loop_body e img st = (st1, r)"
    by (cases "loop_body e img st")
  with Cons.prems have r: "r = None" and rest: "scan_loop e imgs st1 = (st', None)"
    by (cases r; simp)+
  have "out st1 = out st @ [Stdout (rocket @ '' Scanning: '' @ img)] @ fst (scan_image e img)"
    using loop_body_out [of e img st] b by simp
  then have "out st1
      = out st @ Stdout (rocket @ '' Scanning: '' @ img)
          # (if scan_failed e img
             then [Stderr (''[!] Warning: failed to scan '' @ img)] else [])"
    by (simp add: scan_image_events)
  with Cons.IH [OF rest] show ?case by simp
qed

lemma scan_loop_stderr:
  "scan_loop e imgs st = (st', None) \<Longrightarrow>
   stderr_of (out st')
   = stderr_of (out st)
     @ map (\<lambda>img. ''[!] Warning: failed to scan '' @ img) (filter (scan_failed e) imgs)"
proof (induction imgs arbitrary: st)
  case Nil
  then show ?case by simp
next
  case (Cons img imgs)
  obtain st1 r where b: "loop_body e img st = (st1, r)"
    by (cases "loop_body e img st")
  with Cons.prems have r: "r = None" and rest: "scan_loop e imgs st1 = (st', None)"
    by (cases r; simp)+
  have "out st1 = out st @ [Stdout (rocket @ '' Scanning: '' @ img)] @ fst (scan_image e img)"
    using loop_body_out [of e img st] b by simp
  then have "stderr_of (out st1)
      = stderr_of (out st)
        @ map (\<lambda>img. ''[!] Warning: failed to scan '' @ img) (filter (scan_failed e) [img])"
    by (simp add: stderr_of_append scan_image_events)
  with Cons.IH [OF rest] show ?case by simp
qed





subsection \<open>The report file\<close>







subsection \<open>A scan that fails\<close>

text \<open>
  The failure the handler of \<open>scan_image\<close> catches. When the scanner exits with a non-zero
  status, \<open>scan_image\<close> raises nothing: it prints a warning naming the image on the
  diagnostic stream and returns the empty list. The row of the image has the four counts
  0, the total is unchanged, and the loop goes on with the remaining images.
\<close>

lemma scan_image_nonzero_exit:
  assumes "grype e img = Exited rc text" and "rc \<noteq> 0"
  shows "scan_image e img = ([Stderr (''[!] Warning: failed to scan '' @ img)], Inr (JArr []))
         \<and> loop_body e img st
             = (st\<lparr>out := out st @ [Stdout (rocket @ '' Scanning: '' @ img),
                                      Stderr (''[!] Warning: failed to scan '' @ img)],
                    total_acc := accumulate (total_acc st) Map.empty,
                    per_image := per_image st
                      @ [\<lparr>Image_ref = img, Critical = 0, High = 0, Medium = 0, Low = 0\<rparr>]\<rparr>,
                None)
         \<and> summary_row (accumulate (total_acc st) Map.empty) = summary_row (total_acc st)
         \<and> scan_loop e (img # rest) st = scan_loop e rest (fst (loop_body e img st))"
proof -
  have scan: "scan_image e img
              = ([Stderr (''[!] Warning: failed to scan '' @ img)], Inr (JArr []))"
    using assms by (simp add: scan_image_def)
  have row: "image_report img Map.empty
             = \<lparr>Image_ref = img, Critical = 0, High = 0, Medium = 0, Low = 0\<rparr>"
    by (simp add: image_report_def count_empty)
  have body: "loop_body e img st
             = (st\<lparr>out := out st @ [Stdout (rocket @ '' Scanning: '' @ img),
                                      Stderr (''[!] Warning: failed to scan '' @ img)],
                    total_acc := accumulate (total_acc st) Map.empty,
                    per_image := per_image st
                      @ [\<lparr>Image_ref = img, Critical = 0, High = 0, Medium = 0, Low = 0\<rparr>]\<rparr>,
                None)"
    using scan row by (simp add: loop_body_def summarize_Nil)
  have tot: "summary_row (accumulate (total_acc st) Map.empty) = summary_row (total_acc st)"
    by (simp add: summary_row_def count_accumulate count_empty)
  have "scan_loop e (img # rest) st = scan_loop e rest (fst (loop_body e img st))"
    by (simp add: body)
  with scan body tot show ?thesis by blast
qed

lemma scan_image_nonzero_exit_demo:
  "grype env_demo ''nginx:1.21'' = Exited 1 [] \<and> (1 :: int) \<noteq> 0
   \<and> scan_image env_demo ''nginx:1.21''
       = ([Stderr ''[!] Warning: failed to scan nginx:1.21''], Inr (JArr []))
   \<and> per_image (fst (loop_body env_demo ''nginx:1.21'' init_state))
       = [\<lparr>Image_ref = ''nginx:1.21'', Critical = 0, High = 0, Medium = 0, Low = 0\<rparr>]
   \<and> scan_loop env_demo [''nginx:1.21'', ''redis:7''] init_state
       = scan_loop env_demo [''redis:7''] (fst (loop_body env_demo ''nginx:1.21'' init_state))"
proof -
  have g: "grype env_demo ''nginx:1.21'' = Exited 1 []"
    by (simp add: env_demo_def)
  have n: "(1 :: int) \<noteq> 0"
    by simp
  show ?thesis
    using g scan_image_nonzero_exit [OF g n, of init_state "[''redis:7'']"]
    by (simp add: init_state_def)
qed

text \<open>
  The failures the handler does not catch. The \<^verbatim>\<open>try\<close> block holds both \<^verbatim>\<open>subprocess.run\<close>
  and \<^verbatim>\<open>json.loads\<close>, and its only clause is \<^verbatim>\<open>except subprocess.CalledProcessError\<close>. A
  scanner that cannot be started, output that cannot be decoded and output that is not
  JSON raise out of \<open>scan_image\<close> with no warning; the loop stops at that image with the
  progress line printed and no row appended.
\<close>

lemma scan_image_uncaught:
  "grype e img = SpawnError \<Longrightarrow> scan_image e img = ([], Inl OSError)"
  "grype e img = Undecodable \<Longrightarrow> scan_image e img = ([], Inl UnicodeDecodeError)"
  "grype e img = Exited 0 text \<Longrightarrow> json_loads e text = None
     \<Longrightarrow> scan_image e img = ([], Inl JSONDecodeError)"
  by (simp_all add: scan_image_def)

lemma scan_loop_stops:
  assumes "scan_image e img = ([], Inl x)"
  shows "scan_loop e (img # rest) st
         = (st\<lparr>out := out st @ [Stdout (rocket @ '' Scanning: '' @ img)]\<rparr>, Some x)"
  using assms by (simp add: loop_body_def)

lemma main_stops:
  assumes "get_unique_images e = Inr (img # rest)"
    and "scan_image e img = ([], Inl x)"
  shows "main e = ([Stdout (rocket @ '' Scanning: '' @ img)], Inl x)"
proof -
  have "scan_loop e (img # rest) init_state
        = (init_state\<lparr>out := out init_state @ [Stdout (rocket @ '' Scanning: '' @ img)]\<rparr>,
           Some x)"
    by (rule scan_loop_stops [OF assms(2)])
  with assms(1) show ?thesis
    by (simp add: main_def init_state_def del: scan_loop.simps)
qed

text \<open>
  C1. On any failure of the scanner invocation (non-zero exit, output that is not JSON,
  a process that cannot be started) \<open>scan_image\<close> is to print a warning naming the image,
  return the empty list and raise nothing, so that the image gets a row of four zeros and
  the run goes on. The code does so for the non-zero exit only. Here the cluster runs
  nginx:1.21 and redis:7. With a scanner that exits with status 0 and prints text that
  is not JSON, \<open>scan_image\<close> raises \<^verbatim>\<open>JSONDecodeError\<close>; with a scanner that is not installed
  it raises \<^verbatim>\<open>OSError\<close>. In both runs no warning is printed and \<open>main\<close> ends on the
  exception after the progress line of nginx:1.21: redis:7 is never scanned, and neither
  the table nor the file is produced.
\<close>

theorem scan_image_uncaught_failures:
  "scan_image env_garbled ''nginx:1.21'' = ([], Inl JSONDecodeError)
   \<and> scan_image env_no_scanner ''nginx:1.21'' = ([], Inl OSError)
   \<and> main env_garbled = ([Stdout (rocket @ '' Scanning: nginx:1.21'')], Inl JSONDecodeError)
   \<and> main env_no_scanner = ([Stdout (rocket @ '' Scanning: nginx:1.21'')], Inl OSError)
   \<and> stderr_of (fst (main env_garbled)) = []
   \<and> stderr_of (fst (main env_no_scanner)) = []
   \<and> files_of (fst (main env_garbled)) = []
   \<and> files_of (fst (main env_no_scanner)) = []
   \<and> exit_status (snd (main env_garbled)) = 1
   \<and> exit_status (snd (main env_no_scanner)) = 1"
proof -
  have g: "scan_image env_garbled ''nginx:1.21'' = ([], Inl JSONDecodeError)"
    by (simp add: scan_image_def env_garbled_def)
  have n: "scan_image env_no_scanner ''nginx:1.21'' = ([], Inl OSError)"
    by (simp add: scan_image_def env_no_scanner_def)
  have ig: "get_unique_images env_garbled = Inr [''nginx:1.21'', ''redis:7'']"
    by (simp add: get_unique_images_def env_garbled_def splitlines_kubectl_lines
        unique_sorted_scenario_A)
  have inn: "get_unique_images env_no_scanner = Inr [''nginx:1.21'', ''redis:7'']"
    by (simp add: get_unique_images_def env_no_scanner_def splitlines_kubectl_lines
        unique_sorted_scenario_A)
  have mg: "main env_garbled
      = ([Stdout (rocket @ '' Scanning: nginx:1.21'')], Inl JSONDecodeError)"
    using main_stops [OF ig g] by simp
  have mn: "main env_no_scanner
      = ([Stdout (rocket @ '' Scanning: nginx:1.21'')], Inl OSError)"
    using main_stops [OF inn n] by simp
  show ?thesis
    using g n by (simp add: mg mn)
qed

subsection \<open>A report file that cannot be written\<close>

lemma readonly_images: "get_unique_images env_readonly = Inr [''nginx:1.21'', ''redis:7'']"
  by (simp add: get_unique_images_def env_readonly_def splitlines_kubectl_lines
      unique_sorted_scenario_A)

lemma readonly_loop:
  "snd (scan_loop env_readonly [''nginx:1.21'', ''redis:7''] init_state) = None"
  by code_simp

lemma readonly_rows:
  "per_image (fst (scan_loop env_readonly [''nginx:1.21'', ''redis:7''] init_state))
   = [\<lparr>Image_ref = ''nginx:1.21'', Critical = 1, High = 2, Medium = 0, Low = 0\<rparr>,
      \<lparr>Image_ref = ''redis:7'', Critical = 1, High = 2, Medium = 0, Low = 0\<rparr>]"
  by code_simp

text \<open>
  C9, as the code behaves. When the report file cannot be created or written after the
  loop has finished, \<open>main\<close> ends on the \<^verbatim>\<open>OSError\<close> with exit status 1. Up to then it has
  printed, for each image, its progress line and, when its scan exited with a non-zero
  status, its warning; then the title and the cumulative table on standard output. So
  the diagnostic stream holds those warnings and nothing of the report. When the file
  could not be opened no file is written; when writing failed after \<open>k\<close> characters the
  file holds the first \<open>k\<close> characters of the report text.
\<close>

theorem main_write_failure:
  assumes "get_unique_images e = Inr imgs" and "imgs \<noteq> []"
    and "scan_loop e imgs init_state = (st, None)"
    and "csv_dest e \<noteq> FsOk"
  shows "snd (main e) = Inl OSError
         \<and> exit_status (snd (main e)) = 1
         \<and> fst (main e)
             = concat (map (\<lambda>img. Stdout (rocket @ '' Scanning: '' @ img)
                               # (if scan_failed e img
                                  then [Stderr (''[!] Warning: failed to scan '' @ img)]
                                  else [])) imgs)
               @ [Stdout (CHR 0x0A # bar_chart @ '' Total Vulnerability Summary:''),
                  StdoutTable [''Critical'', ''High'', ''Medium'', ''Low'']
                    [summary_row (total_acc st)]]
               @ (case csv_dest e of
                    FsWriteError k \<Rightarrow> [FileWritten csv_file (take k (csv_text (per_image st)))]
                  | other \<Rightarrow> [])
         \<and> stderr_of (fst (main e))
             = map (\<lambda>img. ''[!] Warning: failed to scan '' @ img) (filter (scan_failed e) imgs)
         \<and> files_of (fst (main e))
             = (case csv_dest e of
                  FsWriteError k \<Rightarrow> [(csv_file, take k (csv_text (per_image st)))]
                | other \<Rightarrow> [])"
proof -
  have err: "stderr_of (out st)
      = map (\<lambda>img. ''[!] Warning: failed to scan '' @ img) (filter (scan_failed e) imgs)"
    using scan_loop_stderr [OF assms(3)] by (simp add: init_state_def)
  have fil: "files_of (out st) = []"
    using scan_loop_files [of e imgs init_state] assms(3) by (simp add: init_state_def)
  have evs: "out st
      = concat (map (\<lambda>img. Stdout (rocket @ '' Scanning: '' @ img)
                        # (if scan_failed e img
                           then [Stderr (''[!] Warning: failed to scan '' @ img)]
                           else [])) imgs)"
    using scan_loop_out [OF assms(3)] by (simp add: init_state_def)
  let ?tail = "case csv_dest e of
                 FsWriteError k \<Rightarrow> [FileWritten csv_file (take k (csv_text (per_image st)))]
               | other \<Rightarrow> []"
  let ?table = "[Stdout (CHR 0x0A # bar_chart @ '' Total Vulnerability Summary:''),
                 StdoutTable [''Critical'', ''High'', ''Medium'', ''Low'']
                   [summary_row (total_acc st)]]"
  have run: "main e = (out st @ ?table @ ?tail, Inl OSError)"
    using assms by (cases "csv_dest e") (simp_all add: main_def write_csv_def)
  have tail_err: "stderr_of ?tail = []"
    by (cases "csv_dest e") simp_all
  have tail_files: "files_of ?tail
      = (case csv_dest e of
           FsWriteError k \<Rightarrow> [(csv_file, take k (csv_text (per_image st)))]
         | other \<Rightarrow> [])"
    by (cases "csv_dest e") simp_all
  have c1: "snd (main e) = Inl OSError" and c2: "exit_status (snd (main e)) = 1"
    by (simp_all add: run)
  have c3: "fst (main e)
      = concat (map (\<lambda>img. Stdout (rocket @ '' Scanning: '' @ img)
                        # (if scan_failed e img
                           then [Stderr (''[!] Warning: failed to scan '' @ img)]
                           else [])) imgs)
        @ ?table @ ?tail"
    by (simp only: run fst_conv evs)
  have c4: "stderr_of (fst (main e))
      = map (\<lambda>img. ''[!] Warning: failed to scan '' @ img) (filter (scan_failed e) imgs)"
    by (simp add: run stderr_of_append tail_err err)
  have c5: "files_of (fst (main e))
      = (case csv_dest e of
           FsWriteError k \<Rightarrow> [(csv_file, take k (csv_text (per_image st)))]
         | other \<Rightarrow> [])"
    by (simp add: run files_of_append tail_files fil)
  from c1 c2 c3 c4 c5 show ?thesis
    by (intro conjI)
qed

theorem main_write_failure_witness:
  "get_unique_images env_readonly = Inr [''nginx:1.21'', ''redis:7'']
   \<and> [''nginx:1.21'', ''redis:7''] \<noteq> ([] :: string list)
   \<and> snd (scan_loop env_readonly [''nginx:1.21'', ''redis:7''] init_state) = None
   \<and> csv_dest env_readonly \<noteq> FsOk
   \<and> snd (main env_readonly) = Inl OSError
   \<and> exit_status (snd (main env_readonly)) = 1"
proof -
  have n: "[''nginx:1.21'', ''redis:7''] \<noteq> ([] :: string list)"
    by simp
  have l: "scan_loop env_readonly [''nginx:1.21'', ''redis:7''] init_state
           = (fst (scan_loop env_readonly [''nginx:1.21'', ''redis:7''] init_state), None)"
    using readonly_loop by (simp add: prod_eq_iff)
  have d: "csv_dest env_readonly \<noteq> FsOk"
    by (simp add: env_readonly_def)
  show ?thesis
    using readonly_images readonly_loop d main_write_failure [OF readonly_images n l d]
    by simp
qed

lemma write_failure_partial_file:
  "snd (main (env_readonly\<lparr>csv_dest := FsWriteError 32\<rparr>)) = Inl OSError"
  "files_of (fst (main (env_readonly\<lparr>csv_dest := FsWriteError 32\<rparr>)))
   = [(''grype-per-image-report.csv'', ''Image,Critical,High,Medium,Low'' @ [CHR 0x0D, CHR 0x0A])]"
  by code_simp+

text \<open>
  C9, as stated. Two images are scanned with findings and the file cannot be created:
  the two rows are in memory, \<open>main\<close> ends on the \<^verbatim>\<open>OSError\<close>, and nothing at all has
  been printed on the diagnostic stream.
\<close>

theorem report_not_surfaced_counterexample:
  "per_image (fst (scan_loop env_readonly [''nginx:1.21'', ''redis:7''] init_state))
   = [\<lparr>Image_ref = ''nginx:1.21'', Critical = 1, High = 2, Medium = 0, Low = 0\<rparr>,
      \<lparr>Image_ref = ''redis:7'', Critical = 1, High = 2, Medium = 0, Low = 0\<rparr>]
   \<and> main env_readonly
       = ([Stdout (rocket @ '' Scanning: nginx:1.21''),
           Stdout (rocket @ '' Scanning: redis:7''),
           Stdout (CHR 0x0A # bar_chart @ '' Total Vulnerability Summary:''),
           StdoutTable [''Critical'', ''High'', ''Medium'', ''Low''] [[2, 4, 0, 0]]],
          Inl OSError)
   \<and> stderr_of (fst (main env_readonly)) = []
   \<and> files_of (fst (main env_readonly)) = []"
proof -
  have "main env_readonly
       = ([Stdout (rocket @ '' Scanning: nginx:1.21''),
           Stdout (rocket @ '' Scanning: redis:7''),
           Stdout (CHR 0x0A # bar_chart @ '' Total Vulnerability Summary:''),
           StdoutTable [''Critical'', ''High'', ''Medium'', ''Low''] [[2, 4, 0, 0]]],
          Inl OSError)"
    by code_simp
  then show ?thesis
    using readonly_rows by simp
qed

end
